theory Spec2Isabelle
  imports Complex_Main "HOL-Library.Char_ord" "HOL-Library.List_Lexorder"
begin

section \<open>Characters\<close>

text \<open>
  The dashboard script \<^verbatim>\<open>data_analysis.py\<close> works on Python strings. They are modelled
  as \<^typ>\<open>string\<close>, restricted to ASCII. \<open>isspace\<close> is the class that \<^verbatim>\<open>str.strip\<close>,
  \<^verbatim>\<open>str.split\<close> and the regular expression class \<^verbatim>\<open>\s\<close> share on ASCII characters:
  code points 9 to 13, 28 to 31 and 32.
\<close>

definition isspace :: "char \<Rightarrow> bool" where
  "isspace c \<longleftrightarrow>
     c \<in> set [CHR 0x09, CHR 0x0A, CHR 0x0B, CHR 0x0C, CHR 0x0D,
               CHR 0x1C, CHR 0x1D, CHR 0x1E, CHR 0x1F, CHR 0x20]"

text \<open>The class \<^verbatim>\<open>[0-9]\<close>, and the value of a digit.\<close>

definition isdigit :: "char \<Rightarrow> bool" where
  "isdigit c \<longleftrightarrow> c \<in> set ''0123456789''"

definition digit_val :: "char \<Rightarrow> nat" where
  "digit_val c = of_char c - 48"

definition nat_of_digits :: "string \<Rightarrow> nat" where
  "nat_of_digits ds = foldl (\<lambda>a c. 10 * a + digit_val c) 0 ds"

text \<open>
  Maximal runs of characters of a class, from left to right; \<open>w\<close> is the run being
  read. With the class of non-whitespace characters this is \<^verbatim>\<open>str.split()\<close> (no
  argument: split at whitespace runs, no empty strings); with a class \<open>C\<close> it is
  \<^verbatim>\<open>re.findall("C+", s)\<close>.
\<close>

fun runs :: "(char \<Rightarrow> bool) \<Rightarrow> string \<Rightarrow> string \<Rightarrow> string list" where
  "runs p w [] = (if w = [] then [] else [w])"
| "runs p w (c # cs) =
     (if p c then runs p (w @ [c]) cs
      else (if w = [] then [] else [w]) @ runs p [] cs)"

definition split :: "string \<Rightarrow> string list" where
  "split s = runs (\<lambda>c. \<not> isspace c) [] s"

text \<open>\<^verbatim>\<open>sep.join(xs)\<close>.\<close>

fun join :: "string \<Rightarrow> string list \<Rightarrow> string" where
  "join sep [] = []"
| "join sep [x] = x"
| "join sep (x # y # ys) = x @ sep @ join sep (y # ys)"

section \<open>Location normalisation\<close>

text \<open>
  \<^verbatim>\<open>df["Location"].astype(str).str.strip().str.replace(r"\s+", " ", regex=True)\<close>

  \<open>strip\<close> is \<^verbatim>\<open>str.strip()\<close>; \<open>collapse_ws\<close> is \<^verbatim>\<open>re.sub(r"\s+", " ", s)\<close>: scanning
  from the left, every maximal run of whitespace is replaced by one space.
\<close>

definition strip :: "string \<Rightarrow> string" where
  "strip s = rev (dropWhile isspace (rev (dropWhile isspace s)))"

function collapse_ws :: "string \<Rightarrow> string" where
  "collapse_ws [] = []"
| "collapse_ws (c # cs) =
     (if isspace c then CHR '' '' # collapse_ws (dropWhile isspace cs)
      else c # collapse_ws cs)"
  by pat_completeness auto
termination
  by (relation "measure length") (auto simp: length_dropWhile_le less_Suc_eq_le)

definition normalize_location :: "string \<Rightarrow> string" where
  "normalize_location s = collapse_ws (strip s)"

text \<open>A string in which every whitespace character is a space that is followed by a
  non-whitespace character or by the end of the string.\<close>

fun single_spaced :: "string \<Rightarrow> bool" where
  "single_spaced [] = True"
| "single_spaced (c # cs) =
     (if isspace c
      then c = CHR '' '' \<and> (case cs of [] \<Rightarrow> True | d # _ \<Rightarrow> \<not> isspace d) \<and> single_spaced cs
      else single_spaced cs)"

section \<open>Transaction values\<close>

text \<open>
  \<^verbatim>\<open>re.search(r"-?\$?\s*([0-9]{1,3}(?:,[0-9]{3})*|[0-9]+)(?:\.[0-9]{1,2})?", s)\<close>

  The pattern is matched by backtracking, every quantifier greedy, the left alternative
  first. \<open>opt_char c\<close> is \<^verbatim>\<open>c?\<close>, \<open>comma_groups\<close> is \<^verbatim>\<open>(?:,[0-9]{3})*\<close> and
  \<open>decimal_part\<close> is \<^verbatim>\<open>(?:\.[0-9]{1,2})?\<close>; each returns the text it consumes at the
  head of its argument.
\<close>

definition opt_char :: "char \<Rightarrow> string \<Rightarrow> string" where
  "opt_char c s = (case s of [] \<Rightarrow> [] | x # _ \<Rightarrow> if x = c then [c] else [])"

fun comma_groups :: "string \<Rightarrow> string" where
  "comma_groups (c # d1 # d2 # d3 # rest) =
     (if c = CHR '','' \<and> isdigit d1 \<and> isdigit d2 \<and> isdigit d3
      then c # d1 # d2 # d3 # comma_groups rest else [])"
| "comma_groups s = []"

definition decimal_part :: "string \<Rightarrow> string" where
  "decimal_part s =
     (case s of [] \<Rightarrow> []
      | c # cs \<Rightarrow>
          if c = CHR ''.'' \<and> takeWhile isdigit (take 2 cs) \<noteq> []
          then c # takeWhile isdigit (take 2 cs) else [])"

text \<open>
  The match of the whole pattern at the head of \<open>s\<close>, if there is one. The sign, the
  dollar and the whitespace are taken as far as they go: giving one of them back leaves
  a character that is no digit where the group needs one. The left alternative takes up
  to three digits and then comma groups; whatever follows the group is optional, so the
  first try of the left alternative is the match as soon as one digit is there, and the
  right alternative \<^verbatim>\<open>[0-9]+\<close> is reached only where there is no digit, and fails too.
\<close>

definition match_at :: "string \<Rightarrow> string option" where
  "match_at s =
     (let sign = opt_char (CHR ''-'') s;
          s1 = drop (length sign) s;
          dollar = opt_char (CHR ''$'') s1;
          s2 = drop (length dollar) s1;
          ws = takeWhile isspace s2;
          s3 = dropWhile isspace s2;
          d = takeWhile isdigit (take 3 s3)
      in if d = [] then None
         else let s4 = drop (length d) s3;
                  g = comma_groups s4;
                  f = decimal_part (drop (length g) s4)
              in Some (sign @ dollar @ ws @ d @ g @ f))"

text \<open>\<^verbatim>\<open>re.search\<close> tries the start positions from left to right; \<open>m.group()\<close> of
  the first match is returned.\<close>

fun re_search :: "string \<Rightarrow> string option" where
  "re_search [] = match_at []"
| "re_search (c # cs) =
     (case match_at (c # cs) of Some m \<Rightarrow> Some m | None \<Rightarrow> re_search cs)"

text \<open>\<^verbatim>\<open>re.sub(r"[,$]", "", m)\<close>\<close>

definition strip_currency :: "string \<Rightarrow> string" where
  "strip_currency m = filter (\<lambda>c. c \<noteq> CHR '','' \<and> c \<noteq> CHR ''$'') m"

text \<open>
  \<^verbatim>\<open>float(s)\<close>, with \<open>None\<close> for \<^verbatim>\<open>ValueError\<close>. A float is modelled by the
  rational number its decimal text denotes: rounding to the nearest double is monotone
  and 0 and 500 are doubles, so the two comparisons of \<open>parse_value\<close> decide the same
  way on both. Surrounding whitespace is stripped, then a sign, digits and a fraction are
  read. The exponents, \<^verbatim>\<open>inf\<close>, \<^verbatim>\<open>nan\<close> and underscores that \<^verbatim>\<open>float\<close> also
  reads cannot occur in a match of the pattern and are not modelled.
\<close>

definition py_float :: "string \<Rightarrow> rat option" where
  "py_float s =
     (let t = strip s;
          neg = (t \<noteq> [] \<and> hd t = CHR ''-'');
          u = (if t \<noteq> [] \<and> (hd t = CHR ''-'' \<or> hd t = CHR ''+'') then tl t else t);
          ip = takeWhile isdigit u;
          r = dropWhile isdigit u;
          fp = tl r;
          v = of_nat (nat_of_digits ip) + of_nat (nat_of_digits fp) / 10 ^ length fp
      in if (r = [] \<and> ip \<noteq> []) \<or>
            (r \<noteq> [] \<and> hd r = CHR ''.'' \<and> list_all isdigit fp \<and> (ip \<noteq> [] \<or> fp \<noteq> []))
         then Some (if neg then - v else v)
         else None)"

text \<open>
  \<open>parse_value\<close> of \<open>load_data\<close>. A raw cell is \<open>None\<close> where \<^verbatim>\<open>pd.isna(x)\<close> holds
  and \<open>Some s\<close> with \<open>s = str(x)\<close> otherwise.
\<close>

definition parse_value :: "string option \<Rightarrow> rat option" where
  "parse_value x =
     (case x of None \<Rightarrow> None
      | Some raw \<Rightarrow>
          (let s = strip raw in
           (case re_search s of None \<Rightarrow> None
            | Some m \<Rightarrow>
                (case py_float (strip_currency m) of None \<Rightarrow> None
                 | Some val \<Rightarrow> if val \<le> 0 \<or> val > 500 then None else Some val))))"

section \<open>Loading and cleaning\<close>

text \<open>
  A row of the CSV file as \<^verbatim>\<open>pd.read_csv\<close> hands it over: every cell is its text, or
  \<open>None\<close> where the cell is missing (NaN). Only the columns the script reads are kept;
  the \<^verbatim>\<open>Unnamed\<close> columns it drops first are left out.
\<close>

record raw_row =
  raw_Location :: "string option"
  raw_Rating :: "string option"
  raw_Value :: "string option"
  raw_Timestamp :: "string option"
  raw_Comment :: "string option"

text \<open>
  A row of the data frame that \<open>load_data\<close> returns. A numeric value is modelled by a
  rational number, NaN and NaT by \<open>None\<close>. A timestamp is the number of seconds since
  1970-01-01 00:00, a date the number of days since then.
\<close>

record row =
  Location :: string
  Rating :: "rat option"
  Value :: "rat option"
  Timestamp :: "int option"
  Date :: "int option"
  Comment :: "string option"
  DayName :: "string option"

text \<open>\<^verbatim>\<open>.astype(str)\<close> on a column of texts: a missing cell becomes the text \<^verbatim>\<open>nan\<close>.\<close>

definition astype_str :: "string option \<Rightarrow> string" where
  "astype_str x = (case x of None \<Rightarrow> ''nan'' | Some s \<Rightarrow> s)"

text \<open>\<^verbatim>\<open>.dt.date\<close> and \<^verbatim>\<open>.dt.day_name()\<close>; 1970-01-01 was a Thursday.\<close>

definition date_of :: "int \<Rightarrow> int" where
  "date_of t = t div 86400"

definition day_name :: "int \<Rightarrow> string" where
  "day_name t =
     [''Monday'', ''Tuesday'', ''Wednesday'', ''Thursday'', ''Friday'', ''Saturday'', ''Sunday'']
       ! nat ((date_of t + 3) mod 7)"

text \<open>
  The columns of one row after the assignments of \<open>load_data\<close>. The two library
  parsers are parameters: \<open>to_numeric\<close> is \<^verbatim>\<open>pd.to_numeric(_, errors="coerce")\<close> and
  \<open>to_datetime\<close> is \<^verbatim>\<open>pd.to_datetime(_, dayfirst=True, errors="coerce")\<close> on one
  cell, \<open>None\<close> where they coerce to NaN or NaT. \<open>has_comment\<close> says whether the file has
  a \<^verbatim>\<open>Comment\<close> column; without it the column is filled with the empty text.
\<close>

definition clean_row ::
  "(string \<Rightarrow> rat option) \<Rightarrow> (string \<Rightarrow> int option) \<Rightarrow> bool \<Rightarrow> raw_row \<Rightarrow> row" where
  "clean_row to_numeric to_datetime has_comment r =
     (let ts = Option.bind (raw_Timestamp r) to_datetime in
      \<lparr> Location = normalize_location (astype_str (raw_Location r)),
        Rating = Option.bind (raw_Rating r) to_numeric,
        Value = parse_value (raw_Value r),
        Timestamp = ts,
        Date = map_option date_of ts,
        Comment = (if has_comment then raw_Comment r else Some []),
        DayName = map_option day_name ts \<rparr>)"

text \<open>\<^verbatim>\<open>df.dropna(subset=["Rating", "Transaction Value"])\<close> keeps the rows in which
  both columns are present.\<close>

definition dropna_rating_value :: "row list \<Rightarrow> row list" where
  "dropna_rating_value df = filter (\<lambda>r. Rating r \<noteq> None \<and> Value r \<noteq> None) df"

text \<open>
  \<open>load_data\<close>: every assignment of the source works row by row, so the columns are
  computed first and the rows with a missing rating or value are dropped then; the
  remaining rows keep their order (\<^verbatim>\<open>reset_index(drop=True)\<close>).
\<close>

definition load_data ::
  "(string \<Rightarrow> rat option) \<Rightarrow> (string \<Rightarrow> int option) \<Rightarrow> bool \<Rightarrow> raw_row list \<Rightarrow> row list" where
  "load_data to_numeric to_datetime has_comment rows =
     dropna_rating_value (map (clean_row to_numeric to_datetime has_comment) rows)"

section \<open>Frequent words\<close>

definition stop_words :: "string list" where
  "stop_words =
     [''the'', ''and'', ''to'', ''of'', ''a'', ''in'', ''for'', ''with'', ''is'', ''it'', ''on'',
      ''my'', ''our'', ''at'', ''are'', ''was'', ''be'', ''have'', ''has'', ''that'', ''they'',
      ''this'', ''i'', ''we'', ''you'', ''their'', ''as'', ''so'', ''its'', ''by'', ''from'',
      ''an'', ''were'', ''your'', ''also'', ''us'', ''had'']"

text \<open>\<^verbatim>\<open>str.lower()\<close> on ASCII, and the class \<^verbatim>\<open>[a-zA-Z']\<close>.\<close>

definition lower_char :: "char \<Rightarrow> char" where
  "lower_char c =
     (case map_of (zip ''ABCDEFGHIJKLMNOPQRSTUVWXYZ'' ''abcdefghijklmnopqrstuvwxyz'') c of
        Some l \<Rightarrow> l
      | None \<Rightarrow> c)"

definition isword :: "char \<Rightarrow> bool" where
  "isword c \<longleftrightarrow>
     (CHR ''a'' \<le> c \<and> c \<le> CHR ''z'') \<or> (CHR ''A'' \<le> c \<and> c \<le> CHR ''Z'') \<or> c = CHR 0x27"

definition findall_words :: "string \<Rightarrow> string list" where
  "findall_words c = runs isword [] (map lower_char c)"

text \<open>
  The dictionary \<open>counts\<close> is a list of pairs in the order in which the keys were first
  inserted, which is the order \<^verbatim>\<open>counts.items()\<close> has. \<open>bump\<close> is
  \<^verbatim>\<open>counts[w] = counts.get(w, 0) + 1\<close>.
\<close>

fun bump :: "(string \<times> nat) list \<Rightarrow> string \<Rightarrow> (string \<times> nat) list" where
  "bump [] w = [(w, 1)]"
| "bump ((k, v) # kvs) w = (if k = w then (k, v + 1) # kvs else (k, v) # bump kvs w)"

definition count_words :: "(string \<times> nat) list \<Rightarrow> string list \<Rightarrow> (string \<times> nat) list" where
  "count_words counts ws =
     foldl (\<lambda>counts w. if w \<notin> set stop_words \<and> length w > 1 then bump counts w else counts)
       counts ws"

text \<open>\<^verbatim>\<open>xs[:n]\<close>: a negative \<open>n\<close> counts from the end.\<close>

definition slice_to :: "int \<Rightarrow> 'a list \<Rightarrow> 'a list" where
  "slice_to n xs = (if 0 \<le> n then take (nat n) xs else take (length xs - nat (- n)) xs)"

text \<open>
  \<^verbatim>\<open>sorted(counts.items(), key=lambda x: x[1], reverse=True)\<close>: Python's sort is
  stable, also with \<^verbatim>\<open>reverse=True\<close>, so it is the stable sort on the negated count.
\<close>

definition sorted_by_count :: "(string \<times> nat) list \<Rightarrow> (string \<times> nat) list" where
  "sorted_by_count items = sort_key (\<lambda>x. - int (snd x)) items"

text \<open>
  \<open>top_words\<close>. The series holds one comment per row, \<open>None\<close> where it is missing
  (\<^verbatim>\<open>dropna()\<close> removes those). The two tuples of the result are lists here.
\<close>

definition top_words :: "string option list \<Rightarrow> int \<Rightarrow> string list \<times> nat list" where
  "top_words series n =
     (let counts = foldl (\<lambda>counts c. count_words counts (findall_words c)) []
                     (List.map_filter id series);
          top_items = slice_to n (sorted_by_count counts)
      in if top_items = [] then ([], [])
         else (map fst top_items, map snd top_items))"

section \<open>Aggregation\<close>

text \<open>\<^verbatim>\<open>Series.dropna()\<close>, \<^verbatim>\<open>Series.mean()\<close> and \<^verbatim>\<open>Series.median()\<close>: missing values are
  skipped, and the result is NaN when nothing is left.\<close>

definition dropna :: "'a option list \<Rightarrow> 'a list" where
  "dropna xs = List.map_filter id xs"

definition mean :: "rat option list \<Rightarrow> rat option" where
  "mean xs =
     (let vs = dropna xs in
      if vs = [] then None else Some (sum_list vs / of_nat (length vs)))"

definition median :: "rat option list \<Rightarrow> rat option" where
  "median xs =
     (let vs = sort (dropna xs); n = length vs in
      if n = 0 then None
      else if odd n then Some (vs ! (n div 2))
      else Some ((vs ! (n div 2 - 1) + vs ! (n div 2)) / 2))"

text \<open>
  \<^verbatim>\<open>df.groupby(col)\<close>: the keys that occur, in ascending order (rows whose key is
  missing belong to no group), and the rows of one group.
\<close>

definition group_keys :: "(row \<Rightarrow> 'k::linorder option) \<Rightarrow> row list \<Rightarrow> 'k list" where
  "group_keys col df = sort (remdups (dropna (map col df)))"

definition group_rows :: "(row \<Rightarrow> 'k option) \<Rightarrow> row list \<Rightarrow> 'k \<Rightarrow> row list" where
  "group_rows col df k = filter (\<lambda>r. col r = Some k) df"

text \<open>
  \<^verbatim>\<open>sort_values(col)\<close> and \<^verbatim>\<open>sort_values(col, ascending=False)\<close>: rows without a
  value come last in both directions. The sort is modelled as a stable one; pandas'
  default algorithm gives no such guarantee, and nothing below depends on the order of
  rows with equal values.
\<close>

definition sort_values :: "('a \<Rightarrow> rat option) \<Rightarrow> bool \<Rightarrow> 'a list \<Rightarrow> 'a list" where
  "sort_values col ascending xs =
     (let present = filter (\<lambda>x. col x \<noteq> None) xs;
          missing = filter (\<lambda>x. col x = None) xs
      in (if ascending then sort_key (\<lambda>x. the (col x)) present
          else sort_key (\<lambda>x. - the (col x)) present) @ missing)"

text \<open>\<^verbatim>\<open>df.groupby("Location").agg(avg_rating=("Rating", "mean"),
  avg_txn=("Transaction Value", "mean"), count=("Rating", "size"))\<close>\<close>

record loc_stats =
  loc :: string
  avg_rating :: "rat option"
  avg_txn :: "rat option"
  count :: nat

definition loc_summary :: "row list \<Rightarrow> loc_stats list" where
  "loc_summary df =
     map (\<lambda>k. let g = group_rows (\<lambda>r. Some (Location r)) df k in
               \<lparr> loc = k, avg_rating = mean (map Rating g), avg_txn = mean (map Value g),
                 count = length g \<rparr>)
       (group_keys (\<lambda>r. Some (Location r)) df)"

text \<open>\<^verbatim>\<open>loc_summary[loc_summary["count"] >= 5]\<close>\<close>

definition enough_samples :: "loc_stats list \<Rightarrow> loc_stats list" where
  "enough_samples ls = filter (\<lambda>l. count l \<ge> 5) ls"

definition top_loc :: "row list \<Rightarrow> loc_stats list" where
  "top_loc df = take 1 (sort_values avg_rating False (enough_samples (loc_summary df)))"

definition bottom_loc :: "row list \<Rightarrow> loc_stats list" where
  "bottom_loc df = take 1 (sort_values avg_rating True (enough_samples (loc_summary df)))"

text \<open>
  The \<open>top_loc\<close> of the script's chart section:
  \<^verbatim>\<open>df.groupby("Location").agg(avg_rating=("Rating", "mean"), count=("Rating", "size"))
  .query("count >= 5").sort_values("avg_rating", ascending=False).head(10)\<close>;
  each row is the location, its mean rating and its number of rows.
\<close>

definition top10_loc :: "row list \<Rightarrow> (string \<times> rat option \<times> nat) list" where
  "top10_loc df =
     take 10 (sort_values (\<lambda>l. fst (snd l)) False
       (filter (\<lambda>l. snd (snd l) \<ge> 5)
         (map (\<lambda>k. let g = group_rows (\<lambda>r. Some (Location r)) df k in
                    (k, mean (map Rating g), length g))
           (group_keys (\<lambda>r. Some (Location r)) df))))"

text \<open>\<^verbatim>\<open>df.groupby("DayName").agg(avg_rating=("Rating", "mean"),
  avg_txn=("Transaction Value", "mean"))\<close>: the day, its mean rating and mean spend.\<close>

definition day_stats :: "row list \<Rightarrow> (string \<times> rat option \<times> rat option) list" where
  "day_stats df =
     map (\<lambda>k. let g = group_rows DayName df k in (k, mean (map Rating g), mean (map Value g)))
       (group_keys DayName df)"

text \<open>
  \<^verbatim>\<open>Series.idxmax()\<close>: the label of the first row that holds the largest value,
  missing values skipped; \<open>None\<close> stands for the NaN that pandas 2 returns when every
  value is missing.
\<close>

definition idxmax :: "(string \<times> rat option) list \<Rightarrow> string option" where
  "idxmax xs =
     (case List.map_filter (\<lambda>(k, v). map_option (\<lambda>x. (k, x)) v) xs of
        [] \<Rightarrow> None
      | y # ys \<Rightarrow> Some (fst (foldl (\<lambda>best x. if snd x > snd best then x else best) y ys)))"

section \<open>Formatting\<close>

definition digit_char :: "nat \<Rightarrow> char" where
  "digit_char n = ''0123456789'' ! n"

text \<open>The decimal text of a natural number and of an integer (\<^verbatim>\<open>str(n)\<close>).\<close>

fun digits_of :: "nat \<Rightarrow> string" where
  "digits_of n =
     (if n < 10 then [digit_char n] else digits_of (n div 10) @ [digit_char (n mod 10)])"

definition str_int :: "int \<Rightarrow> string" where
  "str_int i = (if i < 0 then CHR ''-'' # digits_of (nat (- i)) else digits_of (nat i))"

definition round_half_even :: "rat \<Rightarrow> int" where
  "round_half_even x =
     (let f = \<lfloor>x\<rfloor>; d = x - of_int f in
      if d < 1 / 2 then f else if d > 1 / 2 then f + 1
      else if even f then f else f + 1)"

text \<open>The format \<^verbatim>\<open>{x:.2f}\<close>: two decimals, correctly rounded; NaN prints as \<^verbatim>\<open>nan\<close>.\<close>

definition fmt2 :: "rat option \<Rightarrow> string" where
  "fmt2 v =
     (case v of None \<Rightarrow> ''nan''
      | Some x \<Rightarrow>
          (let q = nat (round_half_even (\<bar>x\<bar> * 100)) in
           (if x < 0 then ''-'' else []) @ digits_of (q div 100) @ ''.'' @
           [digit_char (q mod 100 div 10), digit_char (q mod 10)]))"

section \<open>The narrative\<close>

text \<open>The four entries of \<open>narrative_parts\<close>, as functions of the texts that the
  f-strings insert.\<close>

definition part1 :: "string \<Rightarrow> string \<Rightarrow> string \<Rightarrow> string \<Rightarrow> string \<Rightarrow> string" where
  "part1 n_records base avg_rating_s avg_txn_s med_txn_s =
     ''This dashboard combines '' @ n_records @ '' feedback records (out of '' @ base @
     '' total). The filtered view currently shows an average rating of '' @ avg_rating_s @
     '' out of 5 with mean spend of '' @ [CHR 0x5C] @ ''$'' @ avg_txn_s @
     '' and median spend of '' @ [CHR 0x5C] @ ''$'' @ med_txn_s @
     '', anchoring both satisfaction and revenue outcomes for the same customers.''"

definition part2 :: "string \<Rightarrow> string \<Rightarrow> string \<Rightarrow> string" where
  "part2 top_loc_text bottom_loc_text busy_day =
     ''Locations with enough feedback reveal variation worth attention: the current '' @
     ''top performer on satisfaction is '' @ top_loc_text @ '', while '' @ bottom_loc_text @
     '' is the laggard. Ratings and spend move together modestly, suggesting '' @
     ''experience improvements can drive ticket size. '' @ busy_day @
     '' show the highest average ticket in this filtered view; scheduling stronger '' @
     ''teams there could lift both throughput and sentiment.''"

definition part3 :: "string \<Rightarrow> string" where
  "part3 common_words =
     ''Comments emphasise themes such as '' @ common_words @
     ''. Positive clusters point to friendly staff and coffee quality, while '' @
     ''repeat mentions of price or speed hint at friction moments. We also track '' @
     ''rating distribution and spend by rating, plus daily trends to spot momentum '' @
     ''rather than snapshots.''"

definition part4 :: string where
  "part4 =
     ''\<newline>\<newline>Action points:\<newline>\<newline>1) Double down on '' @
     ''the behaviours praised most (warm greetings, coffee consistency) via quick '' @
     ''shift briefings.\<newline>\<newline>2) Where price or wait-time keywords '' @
     ''appear, test a small set of value combos and speedier pickup flow on peak '' @
     ''days.\<newline>\<newline>3) Use the downloads to share cleaned data with '' @
     ''store managers, and revisit the charts weekly to check whether interventions '' @
     ''are shifting ratings and average tickets in the right direction. Together '' @
     ''these steps keep the dashboard actionable while making the most of the '' @
     ''cleaned dataset.''"

definition filler :: string where
  "filler =
     '' Additional context: Sustained focus on consistency, friendliness, and '' @
     ''speedy pickup remains the most reliable lever for keeping ratings high '' @
     ''and tickets healthy. '' @
     ''Track these measures weekly and pair them with small experiments on value '' @
     ''offers during identified busy days to keep momentum.''"

text \<open>\<open>top_loc_text\<close> and \<open>bottom_loc_text\<close>, from the one-row frame \<open>top_loc\<close> or
  \<open>bottom_loc\<close>.\<close>

definition loc_text :: "loc_stats list \<Rightarrow> string" where
  "loc_text ls =
     (case ls of
        [] \<Rightarrow> ''locations with enough samples''
      | l # _ \<Rightarrow> loc l @ '' (avg rating '' @ fmt2 (avg_rating l) @ '')'')"

text \<open>\<open>busy_day\<close> and \<open>common_words\<close> of \<open>build_narrative\<close>. A day label that is NaN
  (no day has a mean spend) is formatted as \<^verbatim>\<open>nan\<close>.\<close>

definition busy_day :: "row list \<Rightarrow> string" where
  "busy_day df =
     (if day_stats df \<noteq> []
      then (case idxmax (map (\<lambda>(k, r, t). (k, t)) (day_stats df)) of
              Some d \<Rightarrow> d | None \<Rightarrow> ''nan'')
      else ''the busier days'')"

definition common_words :: "string list \<Rightarrow> string" where
  "common_words word_list =
     (if word_list \<noteq> [] then join '', '' (take 6 word_list) else ''service, coffee'')"

text \<open>The entries of \<open>narrative_parts\<close> for a frame \<open>df\<close>, the size \<open>base_len\<close> of the
  unfiltered frame and the ranked words.\<close>

definition narrative_parts :: "row list \<Rightarrow> int \<Rightarrow> string list \<Rightarrow> string list" where
  "narrative_parts df base_len words =
     (let word_list = words;
          avg_rating = mean (map Rating df);
          avg_txn = mean (map Value df);
          med_txn = median (map Value df);
          top_loc_text = loc_text (top_loc df);
          bottom_loc_text = loc_text (bottom_loc df)
      in [part1 (digits_of (length df)) (str_int base_len)
            (fmt2 avg_rating) (fmt2 avg_txn) (fmt2 med_txn),
          part2 top_loc_text bottom_loc_text (busy_day df),
          part3 (common_words word_list),
          part4])"

text \<open>\<^verbatim>\<open>" ".join(narrative_parts)\<close>, the text before its length is adjusted.\<close>

definition composed :: "row list \<Rightarrow> int \<Rightarrow> string list \<Rightarrow> string" where
  "composed df base_len words = join '' '' (narrative_parts df base_len words)"

definition build_narrative :: "row list \<Rightarrow> int \<Rightarrow> string list \<Rightarrow> string" where
  "build_narrative df base_len words =
     (let narrative = composed df base_len words;
          words_count = length (split narrative)
      in if words_count > 400 then join '' '' (take 400 (split narrative))
         else if words_count < 250 then narrative @ '' '' @ filler
         else narrative)"

section \<open>The script\<close>

text \<open>
  One run of the script: the frame \<open>df_full\<close> that \<open>load_data\<close> returned and the
  values of the three sidebar widgets go in, the list of what is drawn comes out, with
  the way the run ended. \<^verbatim>\<open>st.stop()\<close> ends the run at once.
\<close>

record filters =
  locations :: "string list"
  rating_range :: "rat \<times> rat"
  chosen :: "int list"

datatype chart_data =
    RatingCounts "(rat \<times> nat) list"
  | SpendByRating "(rat \<times> rat option) list"
  | Daily "(int \<times> rat option \<times> rat option) list"
  | TopLocations "(string \<times> rat option \<times> nat) list"
  | Words "string list" "nat list"

datatype ui =
    Title string
  | SidebarHeader string
  | Multiselect string "string list"
  | Slider string
  | DateInput string int int
  | DownloadButton string "row list"
  | Warning string
  | Metric string string
  | PlotlyChart string chart_data
  | Markdown string
  | Write string

datatype outcome = Stopped | Finished

text \<open>The three filters, in the order of the script. A comparison with a missing value
  is false. The date filter is there only when some row has a timestamp, and is applied
  only when the widget returned two dates.\<close>

definition filter_locations :: "string list \<Rightarrow> row list \<Rightarrow> row list" where
  "filter_locations ls df = (if ls \<noteq> [] then filter (\<lambda>r. Location r \<in> set ls) df else df)"

definition filter_rating :: "rat \<times> rat \<Rightarrow> row list \<Rightarrow> row list" where
  "filter_rating rng df =
     filter (\<lambda>r. case Rating r of None \<Rightarrow> False
                 | Some x \<Rightarrow> fst rng \<le> x \<and> x \<le> snd rng) df"

definition has_timestamps :: "row list \<Rightarrow> bool" where
  "has_timestamps df \<longleftrightarrow> dropna (map Timestamp df) \<noteq> []"

definition filter_dates :: "int list \<Rightarrow> row list \<Rightarrow> row list" where
  "filter_dates ch df =
     (if has_timestamps df
      then (case ch of
              [start, end] \<Rightarrow>
                filter (\<lambda>r. case Date r of None \<Rightarrow> False
                            | Some d \<Rightarrow> start \<le> d \<and> d \<le> end) df
            | _ \<Rightarrow> df)
      else df)"

definition filtered :: "row list \<Rightarrow> filters \<Rightarrow> row list" where
  "filtered df_full f =
     filter_dates (chosen f) (filter_rating (rating_range f) (filter_locations (locations f) df_full))"

text \<open>The format \<^verbatim>\<open>{n:,}\<close>.\<close>

fun group_thousands :: "nat \<Rightarrow> string" where
  "group_thousands n =
     (if n < 1000 then digits_of n
      else group_thousands (n div 1000) @ '','' @
           [digit_char (n mod 1000 div 100), digit_char (n mod 100 div 10), digit_char (n mod 10)])"

text \<open>What the sidebar draws.\<close>

definition sidebar :: "row list \<Rightarrow> filters \<Rightarrow> ui list" where
  "sidebar df_full f =
     (let df1 = filter_rating (rating_range f) (filter_locations (locations f) df_full) in
      [SidebarHeader ''Filters'',
       Multiselect ''Select locations'' (sort (remdups (map Location df_full))),
       Slider ''Rating range''] @
      (if has_timestamps df1
       then [DateInput ''Date range''
               (date_of (Min (set (dropna (map Timestamp df1)))))
               (date_of (Max (set (dropna (map Timestamp df1)))))]
       else []) @
      [DownloadButton ''Download cleaned data (CSV)'' (filtered df_full f)])"

text \<open>What the script draws below the guard \<^verbatim>\<open>if df.empty\<close>.\<close>

definition kpi_cards :: "row list \<Rightarrow> ui list" where
  "kpi_cards df =
     [Metric ''Records'' (group_thousands (length df)),
      Metric ''Avg rating'' (fmt2 (mean (map Rating df))),
      Metric ''Avg transaction'' (''$'' @ fmt2 (mean (map Value df))),
      Metric ''Median transaction'' (''$'' @ fmt2 (median (map Value df)))]"

definition charts :: "row list \<Rightarrow> ui list" where
  "charts df =
     [PlotlyChart ''Rating distribution''
        (RatingCounts (map (\<lambda>k. (k, length (group_rows Rating df k))) (group_keys Rating df))),
      PlotlyChart ''Average transaction value by rating''
        (SpendByRating
           (map (\<lambda>k. (k, mean (map Value (group_rows Rating df k)))) (group_keys Rating df)))] @
     (if dropna (map Date df) \<noteq> []
      then [PlotlyChart ''Daily trend: rating and spend''
              (Daily (map (\<lambda>k. let g = group_rows Date df k in
                                (k, mean (map Rating g), mean (map Value g)))
                        (group_keys Date df)))]
      else []) @
     (if top10_loc df \<noteq> []
      then [PlotlyChart ''Top locations by average rating (>=5 responses)''
              (TopLocations (top10_loc df))]
      else [])"

definition summary :: "row list \<Rightarrow> row list \<Rightarrow> ui list" where
  "summary df_full df =
     (let (words, counts) = top_words (map Comment df) 12 in
      (if words \<noteq> [] then [PlotlyChart ''Top words in comments'' (Words words counts)] else []) @
      [Markdown ''### AI-style summary and action points'',
       Write (build_narrative df (int (length df_full)) words)])"

definition run_script :: "row list \<Rightarrow> filters \<Rightarrow> ui list \<times> outcome" where
  "run_script df_full f =
     (let df = filtered df_full f;
          drawn = Title ''Cafe Feedback Dashboard'' # sidebar df_full f
      in if df = []
         then (drawn @ [Warning ''No data after applying filters. Please broaden your selection.''],
               Stopped)
         else (drawn @ kpi_cards df @ charts df @ summary df_full df, Finished))"

text \<open>The outputs that show results of the analysis: cards, charts and the summary.\<close>

fun shows_results :: "ui \<Rightarrow> bool" where
  "shows_results (Metric _ _) = True"
| "shows_results (PlotlyChart _ _) = True"
| "shows_results (Markdown _) = True"
| "shows_results (Write _) = True"
| "shows_results _ = False"

section \<open>What the ranking of words is to return\<close>

text \<open>
  The ranking as the specification words it, with no reference to the dictionary that
  \<open>top_words\<close> builds: the tokens that count, in reading order; the distinct ones among
  them in the order of their first occurrence; and each of those with its number of
  occurrences.
\<close>

definition qualifying :: "string option list \<Rightarrow> string list" where
  "qualifying series =
     filter (\<lambda>w. w \<notin> set stop_words \<and> length w > 1)
       (concat (map findall_words (dropna series)))"

definition first_seen :: "string list \<Rightarrow> string list" where
  "first_seen ws = rev (remdups (rev ws))"

definition word_counts :: "string list \<Rightarrow> (string \<times> nat) list" where
  "word_counts toks = map (\<lambda>w. (w, count_list toks w)) (first_seen toks)"

section \<open>Example inputs\<close>

text \<open>Stand-ins for the two library parsers on a handful of cells, and a raw row.\<close>

definition example_to_numeric :: "string \<Rightarrow> rat option" where
  "example_to_numeric s =
     (if s = ''4'' then Some 4 else if s = ''7.5'' then Some (15 / 2)
      else if s = ''-3'' then Some (- 3) else None)"

definition example_to_datetime :: "string \<Rightarrow> int option" where
  "example_to_datetime s = (if s = ''02/01/1970 00:00'' then Some 86400 else None)"

definition example_raw :: "string \<Rightarrow> string \<Rightarrow> string \<Rightarrow> raw_row" where
  "example_raw rating val ts =
     \<lparr> raw_Location = Some ''  Main   St '', raw_Rating = Some rating, raw_Value = Some val,
       raw_Timestamp = Some ts, raw_Comment = Some ''Great staff'' \<rparr>"

text \<open>A cleaned row, and a choice of filters that selects another location.\<close>

definition example_row :: "string \<Rightarrow> rat \<Rightarrow> row" where
  "example_row l r =
     \<lparr> Location = l, Rating = Some r, Value = Some (25 / 2), Timestamp = Some 86400,
       Date = Some 1, Comment = Some ''Great coffee and great staff'',
       DayName = Some ''Friday'' \<rparr>"

definition example_filters :: filters where
  "example_filters = \<lparr> locations = [''Elsewhere''], rating_range = (1, 5), chosen = [] \<rparr>"

text \<open>A frame with four rows of one location and five rows of another.\<close>

definition example_df :: "row list" where
  "example_df = replicate 4 (example_row ''Main St'' 5) @ replicate 5 (example_row ''Dock Rd'' 3)"

text \<open>A frame of five rows whose location has 401 words.\<close>

definition wordy_df :: "row list" where
  "wordy_df = replicate 5 (example_row (join '' '' (replicate 401 ''a'')) 4)"

section \<open>Location normalisation is idempotent\<close>

lemma dropWhile_keep: "xs \<noteq> [] \<Longrightarrow> \<not> P (hd xs) \<Longrightarrow> dropWhile P xs = xs"
  by (cases xs) simp_all

lemma collapse_ws_Nil_iff: "collapse_ws s = [] \<longleftrightarrow> s = []"
  by (cases s) simp_all

lemma collapse_ws_hd: "s \<noteq> [] \<Longrightarrow> \<not> isspace (hd s) \<Longrightarrow> hd (collapse_ws s) = hd s"
  by (cases s) simp_all

lemma single_spaced_collapse_ws: "single_spaced (collapse_ws s)"
proof (induction s rule: collapse_ws.induct)
  case 1
  show ?case by simp
next
  case (2 c cs)
  show ?case
  proof (cases "isspace c")
    case True
    define t where "t = dropWhile isspace cs"
    have "case collapse_ws t of [] \<Rightarrow> True | d # _ \<Rightarrow> \<not> isspace d"
    proof (cases t)
      case Nil
      then show ?thesis by simp
    next
      case (Cons d u)
      have "t \<noteq> [] \<Longrightarrow> \<not> isspace (hd t)"
        unfolding t_def by (rule hd_dropWhile)
      with Cons have "\<not> isspace d" by simp
      with Cons show ?thesis by simp
    qed
    moreover from 2(1) True have "single_spaced (collapse_ws t)"
      by (simp add: t_def)
    ultimately show ?thesis using True by (simp add: t_def)
  next
    case False
    with 2 show ?thesis by simp
  qed
qed

lemma collapse_ws_fixed: "single_spaced s \<Longrightarrow> collapse_ws s = s"
proof (induction s rule: collapse_ws.induct)
  case 1
  show ?case by simp
next
  case (2 c cs)
  show ?case
  proof (cases "isspace c")
    case True
    with 2(3) have c: "c = CHR '' ''" and s: "single_spaced cs"
      and h: "case cs of [] \<Rightarrow> True | d # _ \<Rightarrow> \<not> isspace d"
      by simp_all
    from h have d: "dropWhile isspace cs = cs"
      by (cases cs) simp_all
    with 2(1) True s have "collapse_ws cs = cs" by simp
    with True c d show ?thesis by simp
  next
    case False
    with 2 show ?thesis by simp
  qed
qed

lemma last_dropWhile_keep: "dropWhile P xs \<noteq> [] \<Longrightarrow> last (dropWhile P xs) = last xs"
  by (induction xs) (auto split: if_splits)

lemma collapse_ws_last:
  "s \<noteq> [] \<Longrightarrow> \<not> isspace (last s) \<Longrightarrow> \<not> isspace (last (collapse_ws s))"
proof (induction s rule: collapse_ws.induct)
  case 1
  then show ?case by simp
next
  case (2 c cs)
  show ?case
  proof (cases "isspace c")
    case True
    with 2(4) have ne: "cs \<noteq> []" by auto
    with 2(4) have l: "\<not> isspace (last cs)" by simp
    define t where "t = dropWhile isspace cs"
    have "last cs \<in> set cs" using ne by simp
    with l have dne: "t \<noteq> []"
      by (auto simp: t_def)
    then have "last t = last cs"
      unfolding t_def by (rule last_dropWhile_keep)
    with 2(1) True dne l have "\<not> isspace (last (collapse_ws t))"
      by (simp add: t_def)
    moreover from dne have "collapse_ws t \<noteq> []"
      by (simp add: collapse_ws_Nil_iff)
    ultimately show ?thesis using True by (simp add: t_def)
  next
    case False
    show ?thesis
    proof (cases cs)
      case Nil
      with False show ?thesis by simp
    next
      case (Cons d t)
      with 2(2)[OF False] 2(4) have "\<not> isspace (last (collapse_ws cs))" by simp
      with False Cons show ?thesis by (simp add: collapse_ws_Nil_iff)
    qed
  qed
qed

lemma strip_ends:
  "strip s = [] \<or> (\<not> isspace (hd (strip s)) \<and> \<not> isspace (last (strip s)))"
proof (cases "strip s = []")
  case True
  then show ?thesis by simp
next
  case False
  let ?a = "dropWhile isspace s"
  let ?b = "dropWhile isspace (rev ?a)"
  from False have bne: "?b \<noteq> []" by (simp add: strip_def)
  then have hb: "\<not> isspace (hd ?b)" by (rule hd_dropWhile)
  have l: "last (strip s) = hd ?b"
    using bne by (simp add: strip_def last_rev)
  have "last ?b = last (rev ?a)" using bne by (rule last_dropWhile_keep)
  moreover have "rev ?a \<noteq> []" using bne by (metis dropWhile.simps(1))
  ultimately have "last ?b = hd ?a" by (simp add: last_rev)
  moreover have "?a \<noteq> []" using bne by (metis dropWhile.simps(1) rev.simps(1))
  then have "\<not> isspace (hd ?a)" by (rule hd_dropWhile)
  ultimately have "\<not> isspace (last ?b)" by simp
  moreover have "hd (strip s) = last ?b" using bne by (simp add: strip_def hd_rev)
  ultimately show ?thesis using hb l by simp
qed

lemma strip_fixed: "t = [] \<or> (\<not> isspace (hd t) \<and> \<not> isspace (last t)) \<Longrightarrow> strip t = t"
proof (cases t)
  case Nil
  then show ?thesis by (simp add: strip_def)
next
  case (Cons c cs)
  assume "t = [] \<or> (\<not> isspace (hd t) \<and> \<not> isspace (last t))"
  with Cons have h: "\<not> isspace c" and l: "\<not> isspace (last t)" by simp_all
  from h Cons have a: "dropWhile isspace t = t" by simp
  have "rev t \<noteq> []" using Cons by simp
  moreover have "hd (rev t) = last t" using Cons by (simp add: hd_rev)
  ultimately have "dropWhile isspace (rev t) = rev t"
    using l by (simp add: dropWhile_keep)
  with a show ?thesis by (simp add: strip_def)
qed

text \<open>
  C6. Normalising a location twice gives what normalising it once gives: a normalised
  text is returned unchanged. The text \<^verbatim>\<open>"  Main   St "\<close> is normalised to
  \<^verbatim>\<open>"Main St"\<close>.
\<close>

theorem normalize_location_idempotent:
  "normalize_location (normalize_location s) = normalize_location s \<and>
   normalize_location ''  Main   St '' = ''Main St''"
proof
  let ?t = "normalize_location s"
  have ends: "?t = [] \<or> (\<not> isspace (hd ?t) \<and> \<not> isspace (last ?t))"
  proof (cases "strip s = []")
    case True
    then show ?thesis by (simp add: normalize_location_def)
  next
    case False
    with strip_ends [of s] have "\<not> isspace (hd (strip s))" "\<not> isspace (last (strip s))"
      by simp_all
    with False show ?thesis
      by (simp add: normalize_location_def collapse_ws_hd collapse_ws_last)
  qed
  then have "strip ?t = ?t" by (rule strip_fixed)
  moreover have "collapse_ws ?t = ?t"
    by (simp add: normalize_location_def collapse_ws_fixed single_spaced_collapse_ws)
  ultimately show "normalize_location ?t = ?t"
    by (simp add: normalize_location_def)
next
  show "normalize_location ''  Main   St '' = ''Main St''"
    by (simp add: normalize_location_def strip_def isspace_def)
qed

section \<open>The range of parsed transaction values\<close>

lemmas parse_value_eval =
  parse_value_def strip_def isspace_def re_search.simps match_at_def opt_char_def isdigit_def
  decimal_part_def strip_currency_def py_float_def nat_of_digits_def digit_val_def Let_def

lemma parse_value_12_50: "parse_value (Some ''$12.50'') = Some (25 / 2)"
  by (simp add: parse_value_eval)

lemma takeWhile_none: "\<forall>c \<in> set xs. \<not> P c \<Longrightarrow> takeWhile P xs = []"
  by (cases xs) simp_all

lemma match_at_no_digit:
  assumes nd: "\<forall>c \<in> set s. \<not> isdigit c"
  shows "match_at s = None"
proof -
  define s1 where "s1 = drop (length (opt_char (CHR ''-'') s)) s"
  define s2 where "s2 = drop (length (opt_char (CHR ''$'') s1)) s1"
  define s3 where "s3 = dropWhile isspace s2"
  have "set (take 3 s3) \<subseteq> set s3" by (rule set_take_subset)
  also have "set s3 \<subseteq> set s2" unfolding s3_def by (auto dest: set_dropWhileD)
  also have "set s2 \<subseteq> set s1" unfolding s2_def by (rule set_drop_subset)
  also have "set s1 \<subseteq> set s" unfolding s1_def by (rule set_drop_subset)
  finally have "\<forall>c \<in> set (take 3 s3). \<not> isdigit c" using nd by blast
  then have "takeWhile isdigit (take 3 s3) = []" by (rule takeWhile_none)
  then show ?thesis
    unfolding match_at_def Let_def s3_def s2_def s1_def by (simp only: simp_thms if_True)
qed

lemma re_search_no_digit: "\<forall>c \<in> set s. \<not> isdigit c \<Longrightarrow> re_search s = None"
proof (induction s)
  case Nil
  then show ?case by (simp add: match_at_no_digit)
next
  case (Cons c cs)
  from Cons.prems have "match_at (c # cs) = None" by (rule match_at_no_digit)
  moreover from Cons have "re_search cs = None" by simp
  ultimately show ?case by simp
qed

lemma strip_subset: "set (strip s) \<subseteq> set s"
  unfolding strip_def by (auto dest!: set_dropWhileD)

lemma parse_value_no_digit: "\<forall>c \<in> set s. \<not> isdigit c \<Longrightarrow> parse_value (Some s) = None"
proof -
  assume "\<forall>c \<in> set s. \<not> isdigit c"
  with strip_subset [of s] have "\<forall>c \<in> set (strip s). \<not> isdigit c" by blast
  then have "re_search (strip s) = None" by (rule re_search_no_digit)
  then show ?thesis by (simp add: parse_value_def)
qed

lemma parse_value_bounds: "parse_value x = Some v \<Longrightarrow> 0 < v \<and> v \<le> 500"
  by (auto simp: parse_value_def Let_def split: option.splits if_splits)

text \<open>
  C1. \<open>parse_value\<close> returns nothing or a value greater than 0 and at most 500, and it
  returns nothing for a text without a digit.
\<close>

theorem parse_value_range:
  "(parse_value x = None \<or> (\<exists>v. parse_value x = Some v \<and> 0 < v \<and> v \<le> 500)) \<and>
   ((\<forall>c \<in> set s. \<not> isdigit c) \<longrightarrow> parse_value (Some s) = None)"
  using parse_value_bounds [of x] parse_value_no_digit [of s]
  by (cases "parse_value x") auto

theorem parse_value_range_witness:
  "parse_value (Some ''$12.50'') = Some (25 / 2) \<and>
   parse_value (Some ''-$5'') = None \<and>
   parse_value (Some ''$999'') = None \<and>
   \<not> isdigit (CHR ''a'') \<and> \<not> isdigit (CHR ''b'') \<and> \<not> isdigit (CHR ''c'') \<and>
   parse_value (Some ''abc'') = None"
proof -
  have h: "\<forall>c \<in> set ''abc''. \<not> isdigit c" by (simp add: isdigit_def)
  have e1: "parse_value (Some ''$12.50'') = Some (25 / 2)" by (simp add: parse_value_eval)
  have e2: "parse_value (Some ''-$5'') = None" by (simp add: parse_value_eval)
  have e3: "parse_value (Some ''$999'') = None" by (simp add: parse_value_eval)
  from parse_value_range [of "Some ''$12.50''" "''abc''"] h
  have "parse_value (Some ''abc'') = None" by blast
  with h e1 e2 e3 show ?thesis by simp
qed

section \<open>Cleaning keeps exactly the rows with a rating and a value\<close>

lemma clean_row_sel:
  "Location (clean_row tn td hc r) = normalize_location (astype_str (raw_Location r))"
  "Rating (clean_row tn td hc r) = Option.bind (raw_Rating r) tn"
  "Value (clean_row tn td hc r) = parse_value (raw_Value r)"
  "Timestamp (clean_row tn td hc r) = Option.bind (raw_Timestamp r) td"
  "Date (clean_row tn td hc r) = map_option date_of (Option.bind (raw_Timestamp r) td)"
  "DayName (clean_row tn td hc r) = map_option day_name (Option.bind (raw_Timestamp r) td)"
  "Comment (clean_row tn td hc r) = (if hc then raw_Comment r else Some [])"
  by (simp_all add: clean_row_def Let_def)

lemma load_data_set:
  "set (load_data tn td hc rows) =
     {clean_row tn td hc raw | raw. raw \<in> set rows \<and> Option.bind (raw_Rating raw) tn \<noteq> None \<and>
        parse_value (raw_Value raw) \<noteq> None}"
  by (auto simp: load_data_def dropna_rating_value_def clean_row_sel)

lemma load_data_present:
  "r \<in> set (load_data tn td hc rows) \<Longrightarrow> Rating r \<noteq> None \<and> Value r \<noteq> None"
  by (auto simp: load_data_set clean_row_sel)

text \<open>
  C3. Every row that \<open>load_data\<close> returns has a rating and a transaction value. A raw row
  whose rating and value parse and whose timestamp does not parse is among the returned
  rows, with no timestamp, no date and no day name.
\<close>

theorem load_data_required_fields:
  "(\<forall>r \<in> set (load_data tn td hc rows). Rating r \<noteq> None \<and> Value r \<noteq> None) \<and>
   (\<forall>raw \<in> set rows.
      Option.bind (raw_Rating raw) tn \<noteq> None \<and> parse_value (raw_Value raw) \<noteq> None \<and>
      Option.bind (raw_Timestamp raw) td = None \<longrightarrow>
        clean_row tn td hc raw \<in> set (load_data tn td hc rows) \<and>
        Timestamp (clean_row tn td hc raw) = None \<and>
        Date (clean_row tn td hc raw) = None \<and> DayName (clean_row tn td hc raw) = None)"
  by (auto simp: load_data_set clean_row_sel)

theorem load_data_required_fields_witness:
  "example_raw ''4'' ''$12.50'' ''someday'' \<in> set [example_raw ''4'' ''$12.50'' ''someday''] \<and>
   Option.bind (raw_Rating (example_raw ''4'' ''$12.50'' ''someday'')) example_to_numeric \<noteq> None \<and>
   parse_value (raw_Value (example_raw ''4'' ''$12.50'' ''someday'')) \<noteq> None \<and>
   Option.bind (raw_Timestamp (example_raw ''4'' ''$12.50'' ''someday'')) example_to_datetime = None \<and>
   clean_row example_to_numeric example_to_datetime True (example_raw ''4'' ''$12.50'' ''someday'')
     \<in> set (load_data example_to_numeric example_to_datetime True
               [example_raw ''4'' ''$12.50'' ''someday'']) \<and>
   Timestamp (clean_row example_to_numeric example_to_datetime True
     (example_raw ''4'' ''$12.50'' ''someday'')) = None \<and>
   Rating (clean_row example_to_numeric example_to_datetime True
     (example_raw ''4'' ''$12.50'' ''someday'')) \<noteq> None \<and>
   Value (clean_row example_to_numeric example_to_datetime True
     (example_raw ''4'' ''$12.50'' ''someday'')) \<noteq> None"
proof -
  let ?raw = "example_raw ''4'' ''$12.50'' ''someday''"
  have h1: "?raw \<in> set [?raw]" by simp
  have h2: "Option.bind (raw_Rating ?raw) example_to_numeric \<noteq> None"
    by (simp add: example_raw_def example_to_numeric_def)
  have h3: "parse_value (raw_Value ?raw) \<noteq> None"
    by (simp add: example_raw_def parse_value_12_50)
  have h4: "Option.bind (raw_Timestamp ?raw) example_to_datetime = None"
    by (simp add: example_raw_def example_to_datetime_def)
  show ?thesis
    using load_data_required_fields [of example_to_numeric example_to_datetime True "[?raw]"]
      h1 h2 h3 h4 by blast
qed

text \<open>
  C10. The rating is not checked against a range. A raw row whose rating coerces to a
  number \<open>v\<close>, whatever \<open>v\<close> is, and whose transaction value parses is kept with that
  rating. The rating of a cleaned row is missing exactly when the coercion gave no
  number, and such a row is not among the returned rows.
\<close>

theorem rating_range_not_checked:
  "raw \<in> set rows \<Longrightarrow>
   (Option.bind (raw_Rating raw) tn = Some v \<and> parse_value (raw_Value raw) = Some w \<longrightarrow>
      clean_row tn td hc raw \<in> set (load_data tn td hc rows) \<and>
      Rating (clean_row tn td hc raw) = Some v) \<and>
   (Rating (clean_row tn td hc raw) = None \<longleftrightarrow> Option.bind (raw_Rating raw) tn = None) \<and>
   (Option.bind (raw_Rating raw) tn = None \<longrightarrow>
      clean_row tn td hc raw \<notin> set (load_data tn td hc rows))"
proof (intro conjI impI)
  assume "raw \<in> set rows"
    and "Option.bind (raw_Rating raw) tn = Some v \<and> parse_value (raw_Value raw) = Some w"
  then show "clean_row tn td hc raw \<in> set (load_data tn td hc rows)"
    by (auto simp: load_data_set)
next
  assume "Option.bind (raw_Rating raw) tn = Some v \<and> parse_value (raw_Value raw) = Some w"
  then show "Rating (clean_row tn td hc raw) = Some v"
    by (simp add: clean_row_sel)
next
  show "Rating (clean_row tn td hc raw) = None \<longleftrightarrow> Option.bind (raw_Rating raw) tn = None"
    by (simp add: clean_row_sel)
next
  assume "Option.bind (raw_Rating raw) tn = None"
  then have "Rating (clean_row tn td hc raw) = None"
    by (simp add: clean_row_sel)
  then show "clean_row tn td hc raw \<notin> set (load_data tn td hc rows)"
    using load_data_present by blast
qed

theorem rating_range_not_checked_witness:
  "example_raw ''-3'' ''$12.50'' ''someday'' \<in> set [example_raw ''-3'' ''$12.50'' ''someday''] \<and>
   Option.bind (raw_Rating (example_raw ''-3'' ''$12.50'' ''someday'')) example_to_numeric = Some (- 3) \<and>
   parse_value (raw_Value (example_raw ''-3'' ''$12.50'' ''someday'')) = Some (25 / 2) \<and>
   clean_row example_to_numeric example_to_datetime True (example_raw ''-3'' ''$12.50'' ''someday'')
     \<in> set (load_data example_to_numeric example_to_datetime True
               [example_raw ''-3'' ''$12.50'' ''someday'']) \<and>
   Rating (clean_row example_to_numeric example_to_datetime True
            (example_raw ''-3'' ''$12.50'' ''someday'')) = Some (- 3)"
proof -
  let ?raw = "example_raw ''-3'' ''$12.50'' ''someday''"
  have h1: "?raw \<in> set [?raw]" by simp
  have h2: "Option.bind (raw_Rating ?raw) example_to_numeric = Some (- 3)"
    by (simp add: example_raw_def example_to_numeric_def)
  have h3: "parse_value (raw_Value ?raw) = Some (25 / 2)"
    by (simp add: example_raw_def parse_value_12_50)
  show ?thesis
    using rating_range_not_checked
            [OF h1, of example_to_numeric "- 3" "25 / 2" example_to_datetime True]
      h1 h2 h3 by blast
qed

section \<open>An empty selection\<close>

text \<open>
  C9. When the filters leave no row, the run draws the title, the sidebar (with the
  download button for the empty selection) and the warning, and stops there: nothing
  that shows a result of the analysis (a card, a chart, the summary) is drawn, and the
  run ends in \<open>Stopped\<close>, the state of \<^verbatim>\<open>st.stop()\<close>.
\<close>

theorem empty_selection_stops:
  "filtered df_full f = [] \<Longrightarrow>
   run_script df_full f =
     (Title ''Cafe Feedback Dashboard'' # sidebar df_full f @
        [Warning ''No data after applying filters. Please broaden your selection.''], Stopped) \<and>
   (\<forall>e \<in> set (fst (run_script df_full f)). \<not> shows_results e)"
  by (auto simp: run_script_def sidebar_def Let_def)

theorem empty_selection_stops_witness:
  "filtered [example_row ''Main St'' 4] example_filters = [] \<and>
   run_script [example_row ''Main St'' 4] example_filters =
     (Title ''Cafe Feedback Dashboard'' # sidebar [example_row ''Main St'' 4] example_filters @
        [Warning ''No data after applying filters. Please broaden your selection.''], Stopped)"
proof -
  have h: "filtered [example_row ''Main St'' 4] example_filters = []"
    by (simp add: filtered_def filter_locations_def filter_rating_def filter_dates_def
        example_filters_def example_row_def has_timestamps_def dropna_def List.map_filter_def)
  show ?thesis
    using empty_selection_stops [OF h] h by simp
qed

section \<open>Frequent words: the example\<close>

text \<open>
  C8. For the comments \<^verbatim>\<open>"Great coffee and great staff"\<close> and \<^verbatim>\<open>"Great staff"\<close>,
  \<open>top_words\<close> with the default \<open>n = 12\<close> ranks \<^verbatim>\<open>great\<close> first, with count 3; the
  stop word \<^verbatim>\<open>and\<close> is not counted.
\<close>

theorem top_words_example:
  "top_words [Some ''Great coffee and great staff'', Some ''Great staff''] 12 =
     ([''great'', ''staff'', ''coffee''], [3, 2, 1])"
  by (simp add: top_words_def findall_words_def lower_char_def isword_def count_words_def
      stop_words_def slice_to_def sorted_by_count_def List.map_filter_def)

section \<open>The location ranking\<close>

lemma set_sort_values: "set (sort_values col asc xs) = set xs"
  by (auto simp: sort_values_def Let_def)

lemma group_rows_Location:
  "group_rows (\<lambda>r. Some (Location r)) df k = filter (\<lambda>r. Location r = k) df"
  by (simp add: group_rows_def)

lemma loc_summary_count:
  "l \<in> set (loc_summary df) \<Longrightarrow> count l = length (filter (\<lambda>r. Location r = loc l) df)"
  by (auto simp: loc_summary_def Let_def group_rows_Location)

lemma top_loc_enough:
  "l \<in> set (top_loc df) \<Longrightarrow> 5 \<le> length (filter (\<lambda>r. Location r = loc l) df)"
proof -
  assume "l \<in> set (top_loc df)"
  then have "l \<in> set (sort_values avg_rating False (enough_samples (loc_summary df)))"
    unfolding top_loc_def by (rule in_set_takeD)
  then have "l \<in> set (loc_summary df)" and "5 \<le> count l"
    by (simp_all add: set_sort_values enough_samples_def)
  then show ?thesis by (simp add: loc_summary_count)
qed

lemma bottom_loc_enough:
  "l \<in> set (bottom_loc df) \<Longrightarrow> 5 \<le> length (filter (\<lambda>r. Location r = loc l) df)"
proof -
  assume "l \<in> set (bottom_loc df)"
  then have "l \<in> set (sort_values avg_rating True (enough_samples (loc_summary df)))"
    unfolding bottom_loc_def by (rule in_set_takeD)
  then have "l \<in> set (loc_summary df)" and "5 \<le> count l"
    by (simp_all add: set_sort_values enough_samples_def)
  then show ?thesis by (simp add: loc_summary_count)
qed

lemma top10_loc_enough:
  "l \<in> set (top10_loc df) \<Longrightarrow> 5 \<le> length (filter (\<lambda>r. Location r = fst l) df)"
proof -
  assume "l \<in> set (top10_loc df)"
  then have "l \<in> set (sort_values (\<lambda>l. fst (snd l)) False
       (filter (\<lambda>l. snd (snd l) \<ge> 5)
         (map (\<lambda>k. let g = group_rows (\<lambda>r. Some (Location r)) df k in
                    (k, mean (map Rating g), length g))
           (group_keys (\<lambda>r. Some (Location r)) df))))"
    unfolding top10_loc_def by (rule in_set_takeD)
  then show ?thesis
    by (auto simp: set_sort_values Let_def group_rows_Location)
qed

text \<open>
  C7. A location with fewer than five rows in the frame is neither the top nor the
  bottom location of the narrative nor one of the ten locations of the chart: the rows of
  all three come from the summary rows with a count of at least five.
\<close>

theorem few_records_never_ranked:
  "length (filter (\<lambda>r. Location r = k) df) < 5 \<Longrightarrow>
   k \<notin> loc ` set (top_loc df) \<and> k \<notin> loc ` set (bottom_loc df) \<and>
   k \<notin> fst ` set (top10_loc df)"
  using top_loc_enough [of _ df] bottom_loc_enough [of _ df] top10_loc_enough [of _ df]
  by (fastforce simp: not_le [symmetric])

lemma top_loc_example: "map loc (top_loc example_df) = [''Dock Rd'']"
  by code_simp

lemma top10_loc_example: "map fst (top10_loc example_df) = [''Dock Rd'']"
  by code_simp

theorem few_records_never_ranked_witness:
  "length (filter (\<lambda>r. Location r = ''Main St'') example_df) < 5 \<and>
   ''Main St'' \<notin> loc ` set (top_loc example_df) \<and>
   ''Main St'' \<notin> loc ` set (bottom_loc example_df) \<and>
   ''Main St'' \<notin> fst ` set (top10_loc example_df) \<and>
   map loc (top_loc example_df) = [''Dock Rd''] \<and>
   map fst (top10_loc example_df) = [''Dock Rd'']"
proof -
  have h: "length (filter (\<lambda>r. Location r = ''Main St'') example_df) < 5"
    by (simp add: example_df_def example_row_def)
  show ?thesis
    using few_records_never_ranked [OF h] h top_loc_example top10_loc_example by blast
qed

section \<open>The ranking of words\<close>

lemma count_words_filter:
  "count_words counts ws =
     foldl bump counts (filter (\<lambda>w. w \<notin> set stop_words \<and> length w > 1) ws)"
  unfolding count_words_def by (induction ws arbitrary: counts) simp_all

lemma count_all_comments:
  "foldl (\<lambda>counts c. count_words counts (findall_words c)) acc cs =
     foldl bump acc
       (filter (\<lambda>w. w \<notin> set stop_words \<and> length w > 1) (concat (map findall_words cs)))"
  by (induction cs arbitrary: acc) (simp_all add: count_words_filter)

lemma bump_distinct_keys:
  "distinct ks \<Longrightarrow>
   bump (map (\<lambda>x. (x, c x)) ks) w =
     (if w \<in> set ks then map (\<lambda>x. (x, if x = w then c x + 1 else c x)) ks
      else map (\<lambda>x. (x, c x)) ks @ [(w, 1)])"
  by (induction ks) auto

lemma first_seen_snoc:
  "first_seen (pre @ [w]) = (if w \<in> set pre then first_seen pre else first_seen pre @ [w])"
  by (simp add: first_seen_def)

lemma distinct_first_seen: "distinct (first_seen ws)"
  by (simp add: first_seen_def)

lemma set_first_seen: "set (first_seen ws) = set ws"
  by (simp add: first_seen_def)

lemma bump_word_counts: "bump (word_counts pre) w = word_counts (pre @ [w])"
  by (auto simp: word_counts_def bump_distinct_keys distinct_first_seen set_first_seen
      first_seen_snoc count_list_0_iff)

lemma foldl_bump_word_counts: "foldl bump (word_counts pre) toks = word_counts (pre @ toks)"
proof (induction toks arbitrary: pre)
  case Nil
  show ?case by simp
next
  case (Cons w toks)
  have "foldl bump (word_counts pre) (w # toks) = foldl bump (word_counts (pre @ [w])) toks"
    by (simp add: bump_word_counts)
  also have "\<dots> = word_counts ((pre @ [w]) @ toks)" by (rule Cons.IH)
  finally show ?case by simp
qed

lemma counts_are_word_counts:
  "foldl (\<lambda>counts c. count_words counts (findall_words c)) [] (List.map_filter id series) =
     word_counts (qualifying series)"
proof -
  have "word_counts [] = []" by (simp add: word_counts_def first_seen_def)
  with foldl_bump_word_counts [of "[]" "qualifying series"]
  show ?thesis by (simp add: count_all_comments qualifying_def dropna_def)
qed

lemma top_words_eq:
  "top_words series n =
     (map fst (slice_to n (sorted_by_count (word_counts (qualifying series)))),
      map snd (slice_to n (sorted_by_count (word_counts (qualifying series)))))"
  by (simp add: top_words_def counts_are_word_counts Let_def)

lemma sorted_by_count_desc: "sorted_wrt (\<lambda>a b. snd a \<ge> snd b) (sorted_by_count items)"
proof -
  have "sorted (map (\<lambda>x. - int (snd x)) (sorted_by_count items))"
    unfolding sorted_by_count_def by (rule sorted_sort_key)
  then show ?thesis by (simp add: sorted_map)
qed

lemma sorted_by_count_stable:
  "filter (\<lambda>x. snd x = k) (sorted_by_count items) = filter (\<lambda>x. snd x = k) items"
proof -
  have "filter (\<lambda>x. - int (snd x) = - int k) (sort_key (\<lambda>x. - int (snd x)) items) =
        filter (\<lambda>x. - int (snd x) = - int k) items"
    by (rule sort_key_stable)
  then show ?thesis by (simp add: sorted_by_count_def)
qed

text \<open>
  C5. For \<open>n \<ge> 0\<close>, \<open>top_words\<close> returns at most \<open>n\<close> words, with as many counts. They
  are the first \<open>n\<close> entries of a list \<open>full\<close> that holds every counted word once with
  its number of occurrences, in descending order of the counts, the words of equal count
  in the order of their first occurrence (for every count \<open>k\<close> the entries of \<open>full\<close>
  with that count are those of \<open>word_counts\<close>, in the same order). Without a token
  that counts, the result is the pair of empty lists.
\<close>

theorem top_words_ranking:
  assumes "0 \<le> n"
  shows "length (fst (top_words series n)) \<le> nat n \<and>
         length (snd (top_words series n)) = length (fst (top_words series n)) \<and>
         (\<exists>full. sorted_wrt (\<lambda>a b. snd a \<ge> snd b) full \<and>
            (\<forall>k. filter (\<lambda>x. snd x = k) full =
                 filter (\<lambda>x. snd x = k) (word_counts (qualifying series))) \<and>
            top_words series n = (map fst (take (nat n) full), map snd (take (nat n) full))) \<and>
         (qualifying series = [] \<longrightarrow> top_words series n = ([], []))"
proof (intro conjI impI)
  from assms show "length (fst (top_words series n)) \<le> nat n"
    by (simp add: top_words_eq slice_to_def)
  show "length (snd (top_words series n)) = length (fst (top_words series n))"
    by (simp add: top_words_eq)
  from assms
  have "top_words series n =
          (map fst (take (nat n) (sorted_by_count (word_counts (qualifying series)))),
           map snd (take (nat n) (sorted_by_count (word_counts (qualifying series)))))"
    by (simp add: top_words_eq slice_to_def)
  with sorted_by_count_desc [of "word_counts (qualifying series)"]
    sorted_by_count_stable [of _ "word_counts (qualifying series)"]
  show "\<exists>full. sorted_wrt (\<lambda>a b. snd a \<ge> snd b) full \<and>
            (\<forall>k. filter (\<lambda>x. snd x = k) full =
                 filter (\<lambda>x. snd x = k) (word_counts (qualifying series))) \<and>
            top_words series n = (map fst (take (nat n) full), map snd (take (nat n) full))"
    by blast
next
  assume "qualifying series = []"
  then show "top_words series n = ([], [])"
    by (simp add: top_words_eq word_counts_def first_seen_def sorted_by_count_def slice_to_def)
qed

theorem top_words_ranking_witness:
  "(0::int) \<le> 12 \<and>
   length (fst (top_words [Some ''Great coffee and great staff'', Some ''Great staff''] 12))
     \<le> nat 12 \<and>
   length (snd (top_words [Some ''Great coffee and great staff'', Some ''Great staff''] 12)) =
     length (fst (top_words [Some ''Great coffee and great staff'', Some ''Great staff''] 12)) \<and>
   (\<exists>full. sorted_wrt (\<lambda>a b. snd a \<ge> snd b) full \<and>
      (\<forall>k. filter (\<lambda>x. snd x = k) full =
           filter (\<lambda>x. snd x = k)
             (word_counts
               (qualifying [Some ''Great coffee and great staff'', Some ''Great staff'']))) \<and>
      top_words [Some ''Great coffee and great staff'', Some ''Great staff''] 12 =
        (map fst (take (nat 12) full), map snd (take (nat 12) full)))"
proof -
  have h: "(0::int) \<le> 12" by simp
  show ?thesis
    using top_words_ranking [OF h, of "[Some ''Great coffee and great staff'', Some ''Great staff'']"]
      h by blast
qed

section \<open>The length of the narrative\<close>

text \<open>Words split at a whitespace character, and joining words and splitting them
  again.\<close>

lemma runs_sep: "\<not> p c \<Longrightarrow> runs p w (a @ c # b) = runs p w a @ runs p [] b"
  by (induction a arbitrary: w) simp_all

lemma runs_token: "\<forall>c \<in> set t. p c \<Longrightarrow> runs p w (t @ s) = runs p (w @ t) s"
  by (induction t arbitrary: w) simp_all

lemma runs_words:
  "\<forall>c \<in> set w. p c \<Longrightarrow> x \<in> set (runs p w s) \<Longrightarrow> x \<noteq> [] \<and> (\<forall>c \<in> set x. p c)"
proof (induction s arbitrary: w)
  case Nil
  then show ?case by (auto split: if_splits)
next
  case (Cons c s)
  show ?case
  proof (cases "p c")
    case True
    with Cons.prems have "\<forall>d \<in> set (w @ [c]). p d" and "x \<in> set (runs p (w @ [c]) s)"
      by simp_all
    then show ?thesis by (rule Cons.IH)
  next
    case False
    with Cons.prems have "x = w \<and> w \<noteq> [] \<or> x \<in> set (runs p [] s)"
      by (auto split: if_splits)
    then show ?thesis
    proof
      assume "x = w \<and> w \<noteq> []"
      with Cons.prems(1) show ?thesis by simp
    next
      assume "x \<in> set (runs p [] s)"
      with Cons.IH [of "[]"] show ?thesis by simp
    qed
  qed
qed

lemma split_sep: "isspace c \<Longrightarrow> split (a @ c # b) = split a @ split b"
  by (simp add: split_def runs_sep)

lemma split_token: "x \<noteq> [] \<Longrightarrow> \<forall>c \<in> set x. \<not> isspace c \<Longrightarrow> split x = [x]"
  using runs_token [of x "\<lambda>c. \<not> isspace c" "[]" "[]"] by (simp add: split_def)

lemma split_words: "x \<in> set (split s) \<Longrightarrow> x \<noteq> [] \<and> (\<forall>c \<in> set x. \<not> isspace c)"
  unfolding split_def by (rule runs_words) simp_all

lemma isspace_space: "isspace (CHR '' '')"
  by (simp add: isspace_def)

lemma split_join:
  "\<forall>x \<in> set ws. x \<noteq> [] \<and> (\<forall>c \<in> set x. \<not> isspace c) \<Longrightarrow> split (join '' '' ws) = ws"
proof (induction "'' ''" ws rule: join.induct)
  case 1
  show ?case by (simp add: split_def)
next
  case (2 x)
  then show ?case by (simp add: split_token)
next
  case (3 x y ys)
  then have "split (join '' '' (y # ys)) = y # ys" by simp
  moreover from 3 have "split x = [x]" by (simp add: split_token)
  ultimately show ?case by (simp add: split_sep [OF isspace_space])
qed

lemma split_join_take: "split (join '' '' (take n (split s))) = take n (split s)"
proof (rule split_join)
  show "\<forall>x \<in> set (take n (split s)). x \<noteq> [] \<and> (\<forall>c \<in> set x. \<not> isspace c)"
    using split_words by (blast dest: in_set_takeD)
qed

text \<open>Inserting text never lowers the number of words.\<close>

lemma runs_acc_same:
  "w \<noteq> [] \<Longrightarrow> w' \<noteq> [] \<Longrightarrow> length (runs p w s) = length (runs p w' s)"
proof (induction s arbitrary: w w')
  case Nil
  then show ?case by simp
next
  case (Cons c s)
  show ?case
  proof (cases "p c")
    case True
    have "length (runs p (w @ [c]) s) = length (runs p (w' @ [c]) s)"
      by (rule Cons.IH) simp_all
    with True show ?thesis by simp
  next
    case False
    with Cons.prems show ?thesis by simp
  qed
qed

lemma runs_acc_empty: "length (runs p [] s) \<le> length (runs p w s)"
proof (cases s)
  case Nil
  then show ?thesis by simp
next
  case (Cons c t)
  show ?thesis
  proof (cases "p c")
    case True
    have "length (runs p ([] @ [c]) t) = length (runs p (w @ [c]) t)"
      by (rule runs_acc_same) simp_all
    with True Cons show ?thesis by simp
  next
    case False
    with Cons show ?thesis by simp
  qed
qed

lemma runs_acc_grow: "w' \<noteq> [] \<Longrightarrow> length (runs p w s) \<le> length (runs p w' s)"
  using runs_acc_same [of w w' p s] runs_acc_empty [of p s w'] by (cases "w = []") simp_all

lemma runs_acc_bound:
  "length (runs p w s) \<le> (if w = [] then 0 else 1) + length (runs p [] s)"
proof (cases s)
  case Nil
  then show ?thesis by simp
next
  case (Cons c t)
  show ?thesis
  proof (cases "p c")
    case True
    have "length (runs p (w @ [c]) t) = length (runs p ([] @ [c]) t)"
      by (rule runs_acc_same) simp_all
    with True Cons show ?thesis by simp
  next
    case False
    with Cons show ?thesis by simp
  qed
qed

lemma runs_insert:
  assumes "\<And>w. length (runs p w b) \<le> length (runs p w b')"
  shows "length (runs p w b) \<le> length (runs p w (x @ b'))"
proof (induction x arbitrary: w)
  case Nil
  show ?case using assms by simp
next
  case (Cons c x)
  show ?case
  proof (cases "p c")
    case True
    have "length (runs p w b) \<le> length (runs p (w @ [c]) b)"
      by (rule runs_acc_grow) simp
    also have "\<dots> \<le> length (runs p (w @ [c]) (x @ b'))" by (rule Cons.IH)
    finally show ?thesis using True by simp
  next
    case False
    have "length (runs p w b) \<le> (if w = [] then 0 else 1) + length (runs p [] b)"
      by (rule runs_acc_bound)
    also have "\<dots> \<le> (if w = [] then 0 else 1) + length (runs p [] (x @ b'))"
      using Cons.IH [of "[]"] by simp
    finally show ?thesis using False by (cases "w = []") simp_all
  qed
qed

lemma runs_var:
  assumes "\<And>w. length (runs p w b) \<le> length (runs p w b')"
  shows "length (runs p w ([] @ b)) \<le> length (runs p w (x @ b'))"
  using runs_insert [OF assms] by simp

lemma runs_app:
  assumes "\<And>w. length (runs p w b) \<le> length (runs p w b')"
  shows "length (runs p w (a @ b)) \<le> length (runs p w (a @ b'))"
  using assms by (induction a arbitrary: w) simp_all

lemma runs_nonempty: "w \<noteq> [] \<Longrightarrow> runs p w s \<noteq> []"
  by (induction s arbitrary: w) simp_all

lemma runs_append_le: "length (runs p w x) \<le> length (runs p w (x @ b))"
proof (induction x arbitrary: w)
  case Nil
  show ?case
  proof (cases "w = []")
    case True
    then show ?thesis by simp
  next
    case False
    then have "runs p w b \<noteq> []" by (rule runs_nonempty)
    then have "1 \<le> length (runs p w b)" by (cases "runs p w b") simp_all
    with False show ?thesis by simp
  qed
next
  case (Cons c x)
  then show ?case by simp
qed

lemma part1_empty: "length (split (part1 [] [] [] [] [])) = 40"
  by code_simp

lemma part2_empty: "length (split (part2 [] [] [])) = 52"
  by code_simp

lemma part3_empty: "length (split (part3 [])) = 44"
  by code_simp

lemma part4_words: "length (split part4) = 84"
  by code_simp

lemma filler_words: "length (split filler) = 42"
  by code_simp

lemma part1_words: "40 \<le> length (split (part1 n b a t m))"
proof -
  have "length (split (part1 [] [] [] [] [])) \<le> length (split (part1 n b a t m))"
    unfolding split_def part1_def by (intro runs_app runs_var order_refl)
  then show ?thesis by (simp add: part1_empty)
qed

lemma part2_words: "52 \<le> length (split (part2 a b c))"
proof -
  have "length (split (part2 [] [] [])) \<le> length (split (part2 a b c))"
    unfolding split_def part2_def by (intro runs_app runs_var order_refl)
  then show ?thesis by (simp add: part2_empty)
qed

lemma part3_words: "44 \<le> length (split (part3 a))"
proof -
  have "length (split (part3 [])) \<le> length (split (part3 a))"
    unfolding split_def part3_def by (intro runs_app runs_var order_refl)
  then show ?thesis by (simp add: part3_empty)
qed

lemma part2_contains: "length (split a) \<le> length (split (part2 a b c))"
  unfolding split_def part2_def
  by (rule runs_insert, rule runs_insert, rule runs_append_le)

lemma composed_eq:
  "composed df base_len words =
     part1 (digits_of (length df)) (str_int base_len) (fmt2 (mean (map Rating df)))
       (fmt2 (mean (map Value df))) (fmt2 (median (map Value df))) @ CHR '' '' #
     part2 (loc_text (top_loc df)) (loc_text (bottom_loc df)) (busy_day df) @ CHR '' '' #
     part3 (common_words words) @ CHR '' '' # part4"
  by (simp add: composed_def narrative_parts_def Let_def)

lemma composed_count:
  "length (split (composed df base_len words)) =
     length (split (part1 (digits_of (length df)) (str_int base_len) (fmt2 (mean (map Rating df)))
       (fmt2 (mean (map Value df))) (fmt2 (median (map Value df))))) +
     length (split (part2 (loc_text (top_loc df)) (loc_text (bottom_loc df)) (busy_day df))) +
     length (split (part3 (common_words words))) + 84"
  unfolding composed_eq
  by (simp only: split_sep [OF isspace_space] length_append add.assoc part4_words)

lemma composed_words: "220 \<le> length (split (composed df base_len words))"
  using part1_words [of "digits_of (length df)" "str_int base_len" "fmt2 (mean (map Rating df))"
      "fmt2 (mean (map Value df))" "fmt2 (median (map Value df))"]
    part2_words [of "loc_text (top_loc df)" "loc_text (bottom_loc df)" "busy_day df"]
    part3_words [of "common_words words"]
  unfolding composed_count by linarith

lemma build_narrative_padded:
  "length (split (composed df base_len words @ '' '' @ filler)) =
     length (split (composed df base_len words)) + 42"
proof -
  have "split (composed df base_len words @ CHR '' '' # filler) =
          split (composed df base_len words) @ split filler"
    by (rule split_sep [OF isspace_space])
  then show ?thesis by (simp add: filler_words)
qed

lemma build_narrative_words:
  "250 \<le> length (split (build_narrative df base_len words)) \<and>
   length (split (build_narrative df base_len words)) \<le> 400"
proof -
  let ?n = "length (split (composed df base_len words))"
  consider "400 < ?n" | "?n < 250" | "250 \<le> ?n \<and> ?n \<le> 400" by linarith
  then show ?thesis
  proof cases
    case 1
    then have "build_narrative df base_len words =
                 join '' '' (take 400 (split (composed df base_len words)))"
      by (simp add: build_narrative_def Let_def)
    then have "length (split (build_narrative df base_len words)) = min ?n 400"
      by (simp add: split_join_take)
    with 1 show ?thesis by simp
  next
    case 2
    then have "build_narrative df base_len words = composed df base_len words @ '' '' @ filler"
      by (simp add: build_narrative_def Let_def)
    then have "length (split (build_narrative df base_len words)) = ?n + 42"
      by (simp only: build_narrative_padded)
    with 2 composed_words [of df base_len words] show ?thesis by simp
  next
    case 3
    then have "build_narrative df base_len words = composed df base_len words"
      by (simp add: build_narrative_def Let_def)
    with 3 show ?thesis by simp
  qed
qed

text \<open>
  C2. For a positive \<open>base_len\<close> and a frame with at least one row, the text that
  \<open>build_narrative\<close> returns has between 250 and 400 words, the words being what
  \<^verbatim>\<open>str.split()\<close> gives.
\<close>

theorem narrative_word_count:
  "0 < base_len \<Longrightarrow> df \<noteq> [] \<Longrightarrow>
   250 \<le> length (split (build_narrative df base_len words)) \<and>
   length (split (build_narrative df base_len words)) \<le> 400"
  by (rule build_narrative_words)

theorem narrative_word_count_witness:
  "(0::int) < 2400 \<and> [example_row ''Main St'' 4] \<noteq> [] \<and>
   250 \<le> length (split (build_narrative [example_row ''Main St'' 4] 2400 [''great'', ''staff''])) \<and>
   length (split (build_narrative [example_row ''Main St'' 4] 2400 [''great'', ''staff''])) \<le> 400"
proof -
  have h1: "(0::int) < 2400" by simp
  have h2: "[example_row ''Main St'' 4] \<noteq> []" by simp
  show ?thesis
    using narrative_word_count [OF h1 h2, of "[''great'', ''staff'']"] h1 h2 by blast
qed

text \<open>
  C4. When the composed text has more than 400 words, \<open>build_narrative\<close> returns its
  first 400 words joined by single spaces, and nothing else: splitting the result gives
  exactly those 400 words. When it has fewer than 250 words, the result is the composed
  text, a space and the filler, with no further cut. Otherwise the composed text is
  returned as it is.
\<close>

theorem narrative_length_adjustment:
  "(400 < length (split (composed df base_len words)) \<longrightarrow>
      build_narrative df base_len words =
        join '' '' (take 400 (split (composed df base_len words))) \<and>
      split (build_narrative df base_len words) = take 400 (split (composed df base_len words)) \<and>
      length (split (build_narrative df base_len words)) = 400) \<and>
   (length (split (composed df base_len words)) < 250 \<longrightarrow>
      build_narrative df base_len words = composed df base_len words @ '' '' @ filler) \<and>
   (250 \<le> length (split (composed df base_len words)) \<and>
    length (split (composed df base_len words)) \<le> 400 \<longrightarrow>
      build_narrative df base_len words = composed df base_len words)"
proof (intro conjI impI)
  assume h: "400 < length (split (composed df base_len words))"
  then show e: "build_narrative df base_len words =
        join '' '' (take 400 (split (composed df base_len words)))"
    by (simp add: build_narrative_def Let_def)
  then show s: "split (build_narrative df base_len words) =
      take 400 (split (composed df base_len words))"
    by (simp only: split_join_take)
  from h show "length (split (build_narrative df base_len words)) = 400"
    unfolding s by simp
next
  assume "length (split (composed df base_len words)) < 250"
  then show "build_narrative df base_len words = composed df base_len words @ '' '' @ filler"
    by (simp add: build_narrative_def Let_def)
next
  assume "250 \<le> length (split (composed df base_len words)) \<and>
    length (split (composed df base_len words)) \<le> 400"
  then show "build_narrative df base_len words = composed df base_len words"
    by (simp add: build_narrative_def Let_def)
qed

lemma short_part1:
  "length (split (part1 (digits_of (length [example_row ''Main St'' 4])) (str_int 2400)
     (fmt2 (mean (map Rating [example_row ''Main St'' 4])))
     (fmt2 (mean (map Value [example_row ''Main St'' 4])))
     (fmt2 (median (map Value [example_row ''Main St'' 4]))))) = 43"
  by code_simp

lemma short_part2:
  "length (split (part2 (loc_text (top_loc [example_row ''Main St'' 4]))
     (loc_text (bottom_loc [example_row ''Main St'' 4]))
     (busy_day [example_row ''Main St'' 4]))) = 60"
  by code_simp

lemma short_part3: "length (split (part3 (common_words [''great'', ''staff'']))) = 45"
  by code_simp

lemma short_example:
  "length (split (composed [example_row ''Main St'' 4] 2400 [''great'', ''staff''])) = 232"
  unfolding composed_count short_part1 short_part2 short_part3 by simp

lemma wordy_top:
  "loc_text (top_loc wordy_df) = join '' '' (replicate 401 ''a'') @ '' (avg rating 4.00)''"
  by code_simp

lemma wordy_example: "400 < length (split (composed wordy_df 2400 []))"
proof -
  have "split (join '' '' (replicate 401 ''a'')) = replicate 401 ''a''"
    by (rule split_join) (simp add: isspace_def)
  then have "401 = length (split (join '' '' (replicate 401 ''a'')))" by simp
  also have "\<dots> \<le> length (split (loc_text (top_loc wordy_df)))"
    unfolding wordy_top split_def by (rule runs_append_le)
  also have "\<dots> \<le> length (split (part2 (loc_text (top_loc wordy_df))
      (loc_text (bottom_loc wordy_df)) (busy_day wordy_df)))"
    by (rule part2_contains)
  also have "\<dots> \<le> length (split (composed wordy_df 2400 []))"
    unfolding composed_count by simp
  finally show ?thesis by simp
qed

theorem narrative_length_adjustment_witness:
  "400 < length (split (composed wordy_df 2400 [])) \<and>
   build_narrative wordy_df 2400 [] = join '' '' (take 400 (split (composed wordy_df 2400 []))) \<and>
   length (split (build_narrative wordy_df 2400 [])) = 400 \<and>
   length (split (composed [example_row ''Main St'' 4] 2400 [''great'', ''staff''])) < 250 \<and>
   build_narrative [example_row ''Main St'' 4] 2400 [''great'', ''staff''] =
     composed [example_row ''Main St'' 4] 2400 [''great'', ''staff''] @ '' '' @ filler"
proof -
  have h1: "400 < length (split (composed wordy_df 2400 []))"
    by (rule wordy_example)
  have h2: "length (split (composed [example_row ''Main St'' 4] 2400 [''great'', ''staff''])) < 250"
    by (simp add: short_example)
  show ?thesis
    using narrative_length_adjustment [of wordy_df 2400 "[]"]
      narrative_length_adjustment [of "[example_row ''Main St'' 4]" 2400 "[''great'', ''staff'']"]
      h1 h2 by blast
qed

end
